theory Spec2Isabelle
  imports Complex_Main "HOL-Library.AList"
begin

section \<open>Values, dictionaries and errors\<close>

text \<open>
  The dialogue core handles the values that \<^verbatim>\<open>json.loads\<close> produces. A JSON boolean is a
  Python \<^verbatim>\<open>int\<close> (1 or 0) for everything done with it here (\<^verbatim>\<open>==\<close>, hashing, truth value), so
  it is a \<open>VNum\<close>; numbers are the finite ones, compared by value. A Python \<^verbatim>\<open>dict\<close> is an
  association list in insertion order; \<open>AList.update\<close> overwrites a key in place and appends
  a new key at the end, as item assignment does. Text is a \<open>string\<close> of ASCII characters.
\<close>

datatype val =
    VNone
  | VNum rat
  | VStr string
  | VList "val list"
  | VDict "(string \<times> val) list"

type_synonym dict = "(string \<times> val) list"

datatype error =
    KeyError
  | TypeError
  | AttributeError
  | UnboundLocalError
  | ValueError
  | IndexingError
  | Unmodelled

text \<open>\<^verbatim>\<open>d.get(k)\<close>: the value stored under \<open>k\<close>, \<^verbatim>\<open>None\<close> when the key is missing.\<close>

definition dict_get :: "dict \<Rightarrow> string \<Rightarrow> val" where
  "dict_get d k = (case map_of d k of None \<Rightarrow> VNone | Some v \<Rightarrow> v)"

text \<open>The truth value Python gives a value in \<^verbatim>\<open>if x:\<close> and \<^verbatim>\<open>not x\<close>.\<close>

fun truthy :: "val \<Rightarrow> bool" where
  "truthy VNone = False"
| "truthy (VNum r) = (r \<noteq> 0)"
| "truthy (VStr s) = (s \<noteq> [])"
| "truthy (VList xs) = (xs \<noteq> [])"
| "truthy (VDict d) = (d \<noteq> [])"

section \<open>Slot-State Registry: \<^verbatim>\<open>StateTracker\<close>\<close>

record StateTracker =
  intent :: val
  slots :: dict

definition intent_slots :: "(string \<times> string list) list" where
  "intent_slots =
    [(''get_beer_recommendation'', [''style'', ''abv'', ''ibu'', ''rating'']),
     (''get_beer_info'', [''name'', ''brewery'']),
     (''list_beers_by_brewery'', [''brewery'']),
     (''get_top_rated'', [''style'']),
     (''rate_beer'', [''name'', ''rating'', ''comment'']),
     (''out_of_context'', [])]"

text \<open>
  \<^verbatim>\<open>intent_slots.get(intent, [])\<close>: the slot names of a known label, none for any other
  hashable key; a list or a dict is unhashable and the lookup raises \<^verbatim>\<open>TypeError\<close>.
\<close>

fun static_slots :: "val \<Rightarrow> error + string list" where
  "static_slots (VStr i) = Inr (case map_of intent_slots i of None \<Rightarrow> [] | Some fs \<Rightarrow> fs)"
| "static_slots (VList xs) = Inl TypeError"
| "static_slots (VDict d) = Inl TypeError"
| "static_slots v = Inr []"

definition initialize_slots :: "val \<Rightarrow> error + dict" where
  "initialize_slots i =
     (case static_slots i of
        Inl e \<Rightarrow> Inl e
      | Inr fs \<Rightarrow> Inr (map (\<lambda>field. (field, VNone)) fs))"

text \<open>\<^verbatim>\<open>StateTracker(intent)\<close>.\<close>

definition new_StateTracker :: "val \<Rightarrow> error + StateTracker" where
  "new_StateTracker i =
     (case initialize_slots i of
        Inl e \<Rightarrow> Inl e
      | Inr s \<Rightarrow> Inr \<lparr>intent = i, slots = s\<rparr>)"

text \<open>
  The inner loop of \<^verbatim>\<open>update\<close>:
  \<^verbatim>\<open>self.slots[slot] = None if val in ["null", None] else val\<close> for every item of one nested
  dictionary.
\<close>

fun write_slots :: "dict \<Rightarrow> dict \<Rightarrow> dict" where
  "write_slots s [] = s"
| "write_slots s ((slot, v) # rest) =
     write_slots (AList.update slot (if v \<in> set [VStr ''null'', VNone] then VNone else v) s) rest"

text \<open>The outer loop: every value of the observation that is a dictionary is written.\<close>

fun merge_observation :: "dict \<Rightarrow> dict \<Rightarrow> dict" where
  "merge_observation s [] = s"
| "merge_observation s ((k, VDict d) # rest) = merge_observation (write_slots s d) rest"
| "merge_observation s ((k, v) # rest) = merge_observation s rest"

text \<open>
  \<^verbatim>\<open>serialize\<close> hands \<^verbatim>\<open>{"intent": ..., "slots": safe}\<close> to \<^verbatim>\<open>json.dumps\<close>. The rendering of a
  value as JSON text is the library's; it is the parameter \<open>dumps\<close>. \<open>serialize_view\<close> is the
  dictionary that is rendered.
\<close>

definition safe_slots :: "dict \<Rightarrow> dict" where
  "safe_slots s = map (\<lambda>(k, v). (k, if v \<noteq> VNone then v else VStr ''null'')) s"

definition serialize_view :: "StateTracker \<Rightarrow> val" where
  "serialize_view st = VDict [(''intent'', intent st), (''slots'', VDict (safe_slots (slots st)))]"

definition serialize :: "(val \<Rightarrow> string) \<Rightarrow> StateTracker \<Rightarrow> string" where
  "serialize dumps st = dumps (serialize_view st)"

text \<open>\<^verbatim>\<open>update\<close> mutates the tracker and returns its serialization.\<close>

definition update :: "(val \<Rightarrow> string) \<Rightarrow> StateTracker \<Rightarrow> dict \<Rightarrow> StateTracker \<times> string" where
  "update dumps st nlu_input =
     (let st' = st\<lparr>slots := merge_observation (slots st) nlu_input\<rparr>
      in (st', serialize dumps st'))"

text \<open>A tracker after its creation and any sequence of merged observations.\<close>

fun update_all :: "(val \<Rightarrow> string) \<Rightarrow> StateTracker \<Rightarrow> dict list \<Rightarrow> StateTracker" where
  "update_all dumps st [] = st"
| "update_all dumps st (obs # rest) = update_all dumps (fst (update dumps st obs)) rest"

text \<open>The slot names an observation writes: the keys of its nested dictionaries.\<close>

fun written_slots :: "dict \<Rightarrow> string set" where
  "written_slots [] = {}"
| "written_slots ((k, VDict d) # rest) = fst ` set d \<union> written_slots rest"
| "written_slots ((k, v) # rest) = written_slots rest"

section \<open>Decision Engine: \<^verbatim>\<open>DM\<close>\<close>

text \<open>
  \<^verbatim>\<open>str.lower()\<close> on ASCII text, and the test \<^verbatim>\<open>str(parameter).lower() in ["none", "null"]\<close>.
  Only a string or \<^verbatim>\<open>None\<close> can print as one of the two words: a number prints as digits (or
  as True or False), a list starts with a bracket and a dict with a brace.
\<close>

definition lower_char :: "char \<Rightarrow> char" where
  "lower_char c =
     (let n = (of_char c :: nat) in if 65 \<le> n \<and> n \<le> 90 then char_of (n + 32) else c)"

definition lower :: "string \<Rightarrow> string" where
  "lower s = map lower_char s"

fun str_lower_is_sentinel :: "val \<Rightarrow> bool" where
  "str_lower_is_sentinel (VStr s) = (lower s \<in> set [''none'', ''null''])"
| "str_lower_is_sentinel VNone = True"
| "str_lower_is_sentinel v = False"

text \<open>
  \<^verbatim>\<open>state.slots.get(parameter)\<close> with a parameter of any type: the keys are strings, so another
  hashable value finds nothing, and a list or a dict raises \<^verbatim>\<open>TypeError\<close> (unhashable).
\<close>

fun slots_get :: "dict \<Rightarrow> val \<Rightarrow> error + val" where
  "slots_get d (VStr k) = Inr (dict_get d k)"
| "slots_get d (VList xs) = Inl TypeError"
| "slots_get d (VDict e) = Inl TypeError"
| "slots_get d v = Inr VNone"

text \<open>
  \<^verbatim>\<open>_check_response_validity\<close>. \<^verbatim>\<open>nba.get\<close> needs a dictionary: any other parsed value raises
  \<^verbatim>\<open>AttributeError\<close>. The lookup of line 151 is only evaluated for a \<^verbatim>\<open>request_info\<close>.
\<close>

definition check_response_validity :: "val \<Rightarrow> StateTracker \<Rightarrow> error + bool" where
  "check_response_validity nba state =
     (case nba of
        VDict d \<Rightarrow>
          (let action = dict_get d ''action''; parameter = dict_get d ''parameter'' in
           if action \<notin> set [VStr ''request_info'', VStr ''confirmation''] then Inr False
           else if \<not> truthy parameter \<or> str_lower_is_sentinel parameter then Inr False
           else
             (case (if action = VStr ''request_info'' then slots_get (slots state) parameter
                    else Inr VNone) of
                Inl e \<Rightarrow> Inl e
              | Inr looked_up \<Rightarrow>
                  if action = VStr ''request_info'' \<and> looked_up \<noteq> VNone then Inr False
                  else
                    (let full_slots = list_all (\<lambda>v. v \<noteq> VNone) (map snd (slots state)) in
                     if full_slots \<and> action \<noteq> VStr ''confirmation'' then Inr False
                     else if \<not> full_slots \<and> action \<noteq> VStr ''request_info'' then Inr False
                     else if intent state = VStr ''get_beer_info'' then
                       Inr ((parameter = VStr ''name'' \<and> action = VStr ''request_info'') \<or>
                            (dict_get (slots state) ''name'' \<noteq> VNone \<and>
                             action = VStr ''confirmation''))
                     else Inr True)))
      | _ \<Rightarrow> Inl AttributeError)"

text \<open>
  The decision engine keeps the evaluation-mode flag, the catalog and the registry; the model
  name, the history and the prompts only feed the language model and are left out. The
  catalog is of any type \<open>'d\<close>: its two operations are passed to the functions below as
  \<open>fbi\<close> (\<^verbatim>\<open>filter_by_intent\<close>, which reads the catalog and may raise or not return) and \<open>rur\<close>
  (\<^verbatim>\<open>record_user_rating\<close>, which may raise and returns the catalog as it has changed it).
  A result of type \<open>(error + 'a) option\<close> is \<open>None\<close> when the call does not return.
\<close>

record 'd DM =
  eval_mode :: bool
  dataset :: 'd
  state_stack :: "StateTracker list"

text \<open>\<^verbatim>\<open>_update_states\<close>: the inner loop updates the first tracker of the intent, if any.\<close>

fun update_first :: "(val \<Rightarrow> string) \<Rightarrow> val \<Rightarrow> dict \<Rightarrow> StateTracker list \<Rightarrow> StateTracker list option" where
  "update_first dumps i nlu [] = None"
| "update_first dumps i nlu (state # rest) =
     (if intent state = i then Some (fst (update dumps state nlu) # rest)
      else map_option ((#) state) (update_first dumps i nlu rest))"

fun update_states :: "(val \<Rightarrow> string) \<Rightarrow> StateTracker list \<Rightarrow> dict list \<Rightarrow> error + StateTracker list" where
  "update_states dumps stack [] = Inr stack"
| "update_states dumps stack (nlu # rest) =
     (case map_of nlu ''intent'' of
        None \<Rightarrow> Inl KeyError
      | Some i \<Rightarrow>
          (case update_first dumps i nlu stack of
             Some stack' \<Rightarrow> update_states dumps stack' rest
           | None \<Rightarrow>
               (case new_StateTracker i of
                  Inl e \<Rightarrow> Inl e
                | Inr new_state \<Rightarrow>
                    update_states dumps (stack @ [fst (update dumps new_state nlu)]) rest)))"

text \<open>
  \<^verbatim>\<open>_handle_confirmation\<close>. A tracker is found only for a parameter equal to a stored intent,
  which is hashable, so the set membership test cannot raise.
\<close>

definition handle_confirmation ::
  "('d \<Rightarrow> dict \<Rightarrow> val \<Rightarrow> (error + val) option) \<Rightarrow> ('d \<Rightarrow> dict \<Rightarrow> error + val \<times> 'd) \<Rightarrow>
   'd DM \<Rightarrow> dict \<Rightarrow> (error + val \<times> 'd DM) option" where
  "handle_confirmation fbi rur dm nba_confirm =
     (case map_of nba_confirm ''parameter'' of
        None \<Rightarrow> Some (Inl KeyError)
      | Some target_intent \<Rightarrow>
          (case find (\<lambda>s. intent s = target_intent) (state_stack dm) of
             None \<Rightarrow> Some (Inr (VNone, dm))
           | Some target_state \<Rightarrow>
               if target_intent \<in> set [VStr ''get_beer_recommendation'', VStr ''get_beer_info'',
                                         VStr ''list_beers_by_brewery'', VStr ''get_top_rated'']
               then
                 (case fbi (dataset dm) (slots target_state) target_intent of
                    None \<Rightarrow> None
                  | Some (Inl e) \<Rightarrow> Some (Inl e)
                  | Some (Inr r) \<Rightarrow> Some (Inr (r, dm)))
               else if target_intent = VStr ''rate_beer'' then
                 (case rur (dataset dm) (slots target_state) of
                    Inl e \<Rightarrow> Some (Inl e)
                  | Inr (r, ds') \<Rightarrow> Some (Inr (r, dm\<lparr>dataset := ds'\<rparr>)))
               else if target_intent = VStr ''out_of_context'' then
                 Some (Inr (VStr ''Intent out_of_context'', dm))
               else Some (Inr (VNone, dm))))"

text \<open>
  The language model is outside the program: its replies are given as a list, each reply
  already passed through \<^verbatim>\<open>_extract_json\<close> and \<^verbatim>\<open>json.loads\<close>, \<open>None\<close> standing for a reply
  that does not parse. The \<^verbatim>\<open>while repeat\<close> loop asks again after a reply that does not parse
  and, outside evaluation mode, after a proposal that is not valid; it has no bound, so with
  the replies used up the loop has not returned (\<open>None\<close>).
\<close>

fun query_until_valid ::
  "bool \<Rightarrow> StateTracker \<Rightarrow> val option list \<Rightarrow> (error + val \<times> val option list) option" where
  "query_until_valid ev state [] = None"
| "query_until_valid ev state (None # replies) = query_until_valid ev state replies"
| "query_until_valid ev state (Some parsed # replies) =
     (if ev then Some (Inr (parsed, replies))
      else
        (case check_response_validity parsed state of
           Inl e \<Rightarrow> Some (Inl e)
         | Inr valid \<Rightarrow>
             if valid then Some (Inr (parsed, replies))
             else query_until_valid ev state replies))"

text \<open>
  The variables of \<^verbatim>\<open>__call__\<close> that live across the iterations of its \<^verbatim>\<open>for\<close> loop. \<open>result\<close> is
  a local variable that no branch assigns for an action other than \<^verbatim>\<open>confirmation\<close> and
  \<^verbatim>\<open>request_info\<close>: it is unbound (\<open>None\<close>) until a first assignment and keeps its value from
  one iteration to the next.
\<close>

record 'd loop_vars =
  final_actions :: "val list"
  remove_indices :: "nat list"
  result :: "val option"
  engine :: "'d DM"

text \<open>
  \<^verbatim>\<open>str(x)\<close> inside the f-string of line 98, for text and \<^verbatim>\<open>None\<close>; the printing of numbers
  and containers is not modelled.
\<close>

fun py_str :: "val \<Rightarrow> error + string" where
  "py_str (VStr s) = Inr s"
| "py_str VNone = Inr ''None''"
| "py_str v = Inl Unmodelled"

text \<open>
  Lines 89 to 104: the dispatch on the accepted proposal and the action appended. Subscripting
  a parsed value that is no dictionary raises \<^verbatim>\<open>TypeError\<close>, a missing key \<^verbatim>\<open>KeyError\<close>; the
  dictionary display of line 100 reads \<^verbatim>\<open>parsed["parameter"]\<close> before \<open>result\<close>.
\<close>

definition emit :: "dict \<Rightarrow> 'd loop_vars \<Rightarrow> (error + 'd loop_vars) option" where
  "emit parsed vars =
     (case map_of parsed ''action'' of
        None \<Rightarrow> Some (Inl KeyError)
      | Some a \<Rightarrow>
          (case map_of parsed ''parameter'' of
             None \<Rightarrow> Some (Inl KeyError)
           | Some p \<Rightarrow>
               (case result vars of
                  None \<Rightarrow> Some (Inl UnboundLocalError)
                | Some r \<Rightarrow>
                    Some (Inr (vars\<lparr>final_actions := final_actions vars @
                      [VDict [(''action'', a), (''parameter'', p), (''data'', r)]]\<rparr>)))))"

definition dispatch ::
  "('d \<Rightarrow> dict \<Rightarrow> val \<Rightarrow> (error + val) option) \<Rightarrow> ('d \<Rightarrow> dict \<Rightarrow> error + val \<times> 'd) \<Rightarrow>
   (val \<Rightarrow> string) \<Rightarrow> nat \<Rightarrow> StateTracker \<Rightarrow> val \<Rightarrow> 'd loop_vars \<Rightarrow> (error + 'd loop_vars) option" where
  "dispatch fbi rur dumps idx state parsed_val vars =
     (case parsed_val of
        VDict parsed \<Rightarrow>
          (case map_of parsed ''action'' of
             None \<Rightarrow> Some (Inl KeyError)
           | Some a \<Rightarrow>
               if a = VStr ''confirmation'' then
                 (case handle_confirmation fbi rur (engine vars) parsed of
                    None \<Rightarrow> None
                  | Some (Inl e) \<Rightarrow> Some (Inl e)
                  | Some (Inr (r, dm')) \<Rightarrow>
                      if truthy r then
                        emit parsed (vars\<lparr>remove_indices := remove_indices vars @ [idx],
                                          result := Some r, engine := dm'\<rparr>)
                      else
                        emit [(''action'', VStr ''check_info''),
                              (''parameter'', dict_get parsed ''parameter'')]
                          (vars\<lparr>result := Some (VStr (serialize dumps state)), engine := dm'\<rparr>))
               else if a = VStr ''request_info'' then
                 (case py_str (intent state) of
                    Inl e \<Rightarrow> Some (Inl e)
                  | Inr i \<Rightarrow> emit parsed (vars\<lparr>result := Some (VStr (''intent: '' @ i))\<rparr>))
               else emit parsed vars)
      | _ \<Rightarrow> Some (Inl TypeError))"

text \<open>The \<^verbatim>\<open>for idx, state in enumerate(self.state_stack)\<close> loop.\<close>

fun run_states ::
  "('d \<Rightarrow> dict \<Rightarrow> val \<Rightarrow> (error + val) option) \<Rightarrow> ('d \<Rightarrow> dict \<Rightarrow> error + val \<times> 'd) \<Rightarrow>
   (val \<Rightarrow> string) \<Rightarrow> (nat \<times> StateTracker) list \<Rightarrow> val option list \<Rightarrow> 'd loop_vars \<Rightarrow>
   (error + 'd loop_vars) option" where
  "run_states fbi rur dumps [] replies vars = Some (Inr vars)"
| "run_states fbi rur dumps ((idx, state) # rest) replies vars =
     (case query_until_valid (eval_mode (engine vars)) state replies of
        None \<Rightarrow> None
      | Some (Inl e) \<Rightarrow> Some (Inl e)
      | Some (Inr (parsed, replies')) \<Rightarrow>
          (case dispatch fbi rur dumps idx state parsed vars of
             None \<Rightarrow> None
           | Some (Inl e) \<Rightarrow> Some (Inl e)
           | Some (Inr vars') \<Rightarrow> run_states fbi rur dumps rest replies' vars'))"

text \<open>
  \<^verbatim>\<open>__call__\<close>: the actions of the turn and the engine after it. \<^verbatim>\<open>nlu_inputs[0].get("intent")\<close>
  is only read for a batch of length one.
\<close>

definition call ::
  "('d \<Rightarrow> dict \<Rightarrow> val \<Rightarrow> (error + val) option) \<Rightarrow> ('d \<Rightarrow> dict \<Rightarrow> error + val \<times> 'd) \<Rightarrow>
   (val \<Rightarrow> string) \<Rightarrow> val option list \<Rightarrow> 'd DM \<Rightarrow> dict list \<Rightarrow> (error + val list \<times> 'd DM) option" where
  "call fbi rur dumps replies dm nlu_inputs =
     (if length nlu_inputs = 1 \<and> dict_get (hd nlu_inputs) ''intent'' = VStr ''terminate_system''
      then Some (Inr ([VStr ''terminate_system''], dm))
      else
        (case update_states dumps (state_stack dm) nlu_inputs of
           Inl e \<Rightarrow> Some (Inl e)
         | Inr stack \<Rightarrow>
             (case run_states fbi rur dumps (enumerate 0 stack) replies
                     \<lparr>final_actions = [], remove_indices = [], result = None,
                      engine = dm\<lparr>state_stack := stack\<rparr>\<rparr> of
                None \<Rightarrow> None
              | Some (Inl e) \<Rightarrow> Some (Inl e)
              | Some (Inr vars) \<Rightarrow>
                  Some (Inr (final_actions vars,
                    (engine vars)\<lparr>state_stack :=
                       map snd (filter (\<lambda>(i, s). i \<notin> set (remove_indices vars))
                                  (enumerate 0 (state_stack (engine vars))))\<rparr>)))))"

text \<open>The action tag and the data of an emitted action.\<close>

definition action_of :: "val \<Rightarrow> val" where
  "action_of a = (case a of VDict d \<Rightarrow> dict_get d ''action'' | _ \<Rightarrow> VNone)"

definition data_of :: "val \<Rightarrow> val" where
  "data_of a = (case a of VDict d \<Rightarrow> dict_get d ''data'' | _ \<Rightarrow> VNone)"

section \<open>Catalog Query Engine: \<^verbatim>\<open>BeerDataset\<close>\<close>

text \<open>
  A row of the catalog. A cell of a text column is its text, or \<open>None\<close> when it is missing
  (NaN). A cell of a numeric column is given as \<^verbatim>\<open>pd.to_numeric(errors="coerce")\<close> reads it: a
  finite number, or \<open>None\<close> when it is missing or not a number. The two cells that
  \<^verbatim>\<open>record_user_rating\<close> writes hold a slot value, \<open>VNone\<close> when nothing was written.
\<close>

record CatalogRecord =
  Beer_Id :: int
  Name :: "string option"
  Beer_Full_Name :: "string option"
  Style :: "string option"
  Brewery :: "string option"
  Description :: "string option"
  ABV :: "rat option"
  Min_IBU :: "rat option"
  Max_IBU :: "rat option"
  Rating :: "rat option"
  User_Rating :: val
  User_Comment :: val


subsection \<open>Text\<close>

text \<open>
  Python's \<^verbatim>\<open>\s\<close> and \<^verbatim>\<open>\w\<close> on ASCII text: the white space characters are the codes 9 to 13,
  28 to 31 and 32; the word characters are the digits, the letters and the underscore.
\<close>

definition is_space :: "char \<Rightarrow> bool" where
  "is_space c = (let n = (of_char c :: nat) in (9 \<le> n \<and> n \<le> 13) \<or> (28 \<le> n \<and> n \<le> 32))"

definition is_word :: "char \<Rightarrow> bool" where
  "is_word c =
     (let n = (of_char c :: nat) in
      (48 \<le> n \<and> n \<le> 57) \<or> (65 \<le> n \<and> n \<le> 90) \<or> n = 95 \<or> (97 \<le> n \<and> n \<le> 122))"

text \<open>\<^verbatim>\<open>s.strip()\<close>.\<close>

definition strip :: "string \<Rightarrow> string" where
  "strip s = rev (dropWhile is_space (rev (dropWhile is_space s)))"

text \<open>\<^verbatim>\<open>re.sub(r"\s+", " ", s)\<close>: every run of white space becomes one space.\<close>

function collapse_spaces :: "string \<Rightarrow> string" where
  "collapse_spaces [] = []"
| "collapse_spaces (c # cs) =
     (if is_space c then CHR '' '' # collapse_spaces (dropWhile is_space cs)
      else c # collapse_spaces cs)"
  by pat_completeness auto
termination
  by (relation "measure length") (auto simp: less_Suc_eq_le length_dropWhile_le)

text \<open>\<^verbatim>\<open>re.findall(r"\w+", s)\<close>: the maximal runs of word characters.\<close>

function findall_words :: "string \<Rightarrow> string list" where
  "findall_words [] = []"
| "findall_words (c # cs) =
     (if is_word c then (c # takeWhile is_word cs) # findall_words (dropWhile is_word cs)
      else findall_words cs)"
  by pat_completeness auto
termination
  by (relation "measure length") (auto simp: less_Suc_eq_le length_dropWhile_le)

text \<open>
  \<^verbatim>\<open>str.contains(re.escape(token))\<close>: the token occurs in the text. A token is a run of word
  characters, so the escaped pattern matches the token itself and nothing else.
\<close>

fun contains :: "string \<Rightarrow> string \<Rightarrow> bool" where
  "contains [] token = (token = [])"
| "contains (c # cs) token = (take (length token) (c # cs) = token \<or> contains cs token)"





subsection \<open>Approximate matching\<close>

text \<open>
  The similarity scorers of the matching library (\<^verbatim>\<open>fuzz.ratio\<close>, \<^verbatim>\<open>fuzz.token_set_ratio\<close>,
  \<^verbatim>\<open>fuzz.token_sort_ratio\<close>) are parameters of type \<open>string \<Rightarrow> string \<Rightarrow> rat\<close>: the score of a
  query against a choice, a number from 0 to 100.

  \<^verbatim>\<open>process.extract(query, choices, scorer=..., score_cutoff=..., limit=...)\<close>: the choices
  that are not missing and score at least the cutoff, each with its score and its position,
  the highest score first and the earlier choice first among equal scores, cut to the limit.
\<close>

definition process_extract ::
  "(string \<Rightarrow> string \<Rightarrow> rat) \<Rightarrow> string \<Rightarrow> string option list \<Rightarrow> rat \<Rightarrow> nat \<Rightarrow> (string \<times> rat \<times> nat) list" where
  "process_extract scorer query choices score_cutoff cap =
     take cap (sort_key (\<lambda>(choice, score, key). - score)
       (List.map_filter
          (\<lambda>(key, choice).
             case choice of
               None \<Rightarrow> None
             | Some c \<Rightarrow> if score_cutoff \<le> scorer query c then Some (c, scorer query c, key) else None)
          (enumerate 0 choices)))"

text \<open>\<^verbatim>\<open>Series.unique()\<close> and \<^verbatim>\<open>drop_duplicates()\<close>: the first occurrence of each value, in order.\<close>

fun unique_from :: "'a list \<Rightarrow> 'a list \<Rightarrow> 'a list" where
  "unique_from seen [] = []"
| "unique_from seen (x # xs) =
     (if x \<in> set seen then unique_from seen xs else x # unique_from (x # seen) xs)"

definition unique :: "'a list \<Rightarrow> 'a list" where
  "unique xs = unique_from [] xs"

subsection \<open>The style filter\<close>

text \<open>
  The rows whose style is one of the given ones, \<^verbatim>\<open>data[data["Style"].isin(styles)]\<close>.
\<close>

definition style_isin :: "string list \<Rightarrow> CatalogRecord list \<Rightarrow> CatalogRecord list" where
  "style_isin styles rows =
     filter (\<lambda>r. case Style r of None \<Rightarrow> False | Some s \<Rightarrow> s \<in> set styles) rows"

text \<open>The query as normalized, and its tokens.\<close>

definition style_query :: "string \<Rightarrow> string" where
  "style_query query = collapse_spaces (lower (strip query))"

text \<open>
  \<^verbatim>\<open>df_substr\<close>: the rows whose style is the style of a row that has every token in its
  lower-cased style. (\<^verbatim>\<open>pd.DataFrame()\<close> and a selection without rows are both the empty list.)
\<close>

definition df_substr :: "string \<Rightarrow> CatalogRecord list \<Rightarrow> CatalogRecord list" where
  "df_substr query rows =
     (let tokens = findall_words (style_query query);
          substr_styles = unique (List.map_filter
            (\<lambda>r. case Style r of
                    None \<Rightarrow> None
                  | Some s \<Rightarrow> if list_all (contains (lower s)) tokens then Some s else None) rows)
      in style_isin substr_styles rows)"

text \<open>
  The loop over the thresholds 90, 85, 80, 75: the choices of the first threshold with a match
  (\<^verbatim>\<open>process.extract\<close> with its default limit of 5).
\<close>

fun first_matches ::
  "(string \<Rightarrow> string \<Rightarrow> rat) \<Rightarrow> string \<Rightarrow> string list \<Rightarrow> rat list \<Rightarrow> string list" where
  "first_matches scorer q unique_styles [] = []"
| "first_matches scorer q unique_styles (threshold # rest) =
     (let matches = process_extract scorer q (map Some unique_styles) threshold 5 in
      if matches \<noteq> [] then map fst matches
      else first_matches scorer q unique_styles rest)"

definition df_fuzzy :: "(string \<Rightarrow> string \<Rightarrow> rat) \<Rightarrow> string \<Rightarrow> CatalogRecord list \<Rightarrow> CatalogRecord list" where
  "df_fuzzy token_set_ratio query rows =
     (let unique_styles = unique (List.map_filter Style rows);
          fuzzy_styles = first_matches token_set_ratio (style_query query) unique_styles [90, 85, 80, 75]
      in style_isin fuzzy_styles rows)"

text \<open>
  \<^verbatim>\<open>pd.merge(left, right, how="inner")\<close> joins on all the columns the two tables share, here
  all of them: a row of the left table once for every row of the right table equal to it, in
  the order of the left table (missing cells match missing cells).
\<close>

definition merge_inner :: "CatalogRecord list \<Rightarrow> CatalogRecord list \<Rightarrow> CatalogRecord list" where
  "merge_inner left right = concat (map (\<lambda>l. filter (\<lambda>r. r = l) right) left)"

text \<open>
  \<^verbatim>\<open>_filter_by_style\<close>. The mask of line 174 is indexed by the rows that have a style, so
  \<^verbatim>\<open>data["Style"][mask]\<close> raises \<^verbatim>\<open>IndexingError\<close> when a row of the table has none. On line 194
  \<^verbatim>\<open>df_substr or ...\<close> asks for the truth value of a table, which pandas refuses for every
  table, empty or not, with \<^verbatim>\<open>ValueError\<close>.
\<close>

definition filter_by_style ::
  "(string \<Rightarrow> string \<Rightarrow> rat) \<Rightarrow> string \<Rightarrow> CatalogRecord list \<Rightarrow> error + CatalogRecord list" where
  "filter_by_style token_set_ratio query rows =
     (if list_ex (\<lambda>r. Style r = None) rows then Inl IndexingError
      else
        (let substr = df_substr query rows; fuzzy = df_fuzzy token_set_ratio query rows in
         if substr \<noteq> [] \<and> fuzzy \<noteq> [] then
           (let intersect = merge_inner substr fuzzy in
            Inr (if intersect \<noteq> [] then intersect else unique (substr @ fuzzy)))
         else Inl ValueError))"

subsection \<open>The rating filter\<close>






subsection \<open>The name and brewery filters\<close>







subsection \<open>Rating submission\<close>







section \<open>Example inputs\<close>

definition example_dumps :: "val \<Rightarrow> string" where
  "example_dumps v = []"

definition beer_info_tracker :: StateTracker where
  "beer_info_tracker = \<lparr>intent = VStr ''get_beer_info'', slots = [(''name'', VNone), (''brewery'', VNone)]\<rparr>"

definition brewery_tracker :: StateTracker where
  "brewery_tracker = \<lparr>intent = VStr ''list_beers_by_brewery'', slots = [(''brewery'', VNone)]\<rparr>"

definition obs_name_none :: dict where
  "obs_name_none = [(''intent'', VStr ''get_beer_info''), (''slots'', VDict [(''name'', VStr ''none'')])]"

definition obs_name_null :: dict where
  "obs_name_null = [(''intent'', VStr ''get_beer_info''), (''slots'', VDict [(''name'', VStr ''null'')])]"

definition obs_style :: dict where
  "obs_style = [(''intent'', VStr ''list_beers_by_brewery''), (''slots'', VDict [(''style'', VStr ''IPA'')])]"


definition obs_guinness :: dict where
  "obs_guinness = [(''intent'', VStr ''get_beer_info''), (''slots'', VDict [(''name'', VStr ''Guinness'')])]"

definition name_only_tracker :: StateTracker where
  "name_only_tracker =
     \<lparr>intent = VStr ''get_beer_info'', slots = [(''name'', VStr ''Guinness''), (''brewery'', VNone)]\<rparr>"

definition confirm_beer_info :: val where
  "confirm_beer_info = VDict [(''action'', VStr ''confirmation''), (''parameter'', VStr ''get_beer_info'')]"

definition request_name :: val where
  "request_name = VDict [(''action'', VStr ''request_info''), (''parameter'', VStr ''name'')]"

definition check_brewery :: val where
  "check_brewery = VDict [(''action'', VStr ''check_info''), (''parameter'', VStr ''brewery'')]"


definition obs_beer_info :: dict where
  "obs_beer_info = [(''intent'', VStr ''get_beer_info'')]"

definition obs_brewery :: dict where
  "obs_brewery = [(''intent'', VStr ''list_beers_by_brewery'')]"


text \<open>A catalog with no rows, of which nothing is asked in the examples.\<close>

definition empty_fbi :: "unit \<Rightarrow> dict \<Rightarrow> val \<Rightarrow> (error + val) option" where
  "empty_fbi ds s i = Some (Inr VNone)"

definition empty_rur :: "unit \<Rightarrow> dict \<Rightarrow> error + val \<times> unit" where
  "empty_rur ds s = Inr (VNone, ds)"

definition interactive_dm :: "unit DM" where
  "interactive_dm = \<lparr>eval_mode = False, dataset = (), state_stack = []\<rparr>"

definition evaluation_dm :: "unit DM" where
  "evaluation_dm = \<lparr>eval_mode = True, dataset = (), state_stack = []\<rparr>"

definition out_of_context_tracker :: StateTracker where
  "out_of_context_tracker = \<lparr>intent = VStr ''out_of_context'', slots = []\<rparr>"

definition start_vars :: "unit loop_vars" where
  "start_vars =
     \<lparr>final_actions = [], remove_indices = [], result = None,
      engine = interactive_dm\<lparr>state_stack := [out_of_context_tracker]\<rparr>\<rparr>"

text \<open>Catalog rows for the examples: an id, a name, a style, a brewery and a rating.\<close>

definition beer :: "int \<Rightarrow> string \<Rightarrow> string \<Rightarrow> string \<Rightarrow> rat option \<Rightarrow> CatalogRecord" where
  "beer i n s b rt =
     \<lparr>Beer_Id = i, Name = Some n, Beer_Full_Name = Some n, Style = Some s, Brewery = Some b,
      Description = None, ABV = None, Min_IBU = None, Max_IBU = None, Rating = rt,
      User_Rating = VNone, User_Comment = VNone\<rparr>"

definition stout_row :: CatalogRecord where
  "stout_row = beer 1 ''Guinness Draught'' ''Stout'' ''Guinness'' (Some 4)"



definition zero_scorer :: "string \<Rightarrow> string \<Rightarrow> rat" where
  "zero_scorer q c = 0"










definition american_ipa_row :: CatalogRecord where
  "american_ipa_row = beer 4 ''Two Hearted'' ''American IPA'' ''Bells'' (Some 5)"

definition india_pale_ale_row :: CatalogRecord where
  "india_pale_ale_row = beer 5 ''Jaipur'' ''India Pale Ale'' ''Thornbridge'' (Some 4)"

definition pale_ale_scorer :: "string \<Rightarrow> string \<Rightarrow> rat" where
  "pale_ale_scorer q c = (if c = ''India Pale Ale'' then 100 else 0)"

definition full_scorer :: "string \<Rightarrow> string \<Rightarrow> rat" where
  "full_scorer q c = 100"

section \<open>Properties of the registry\<close>

lemma keys_write_slots: "fst ` set (write_slots s d) = fst ` set s \<union> fst ` set d"
  by (induction s d rule: write_slots.induct) (auto simp: dom_update)

lemma keys_merge_observation:
  "fst ` set (merge_observation s obs) = fst ` set s \<union> written_slots obs"
  by (induction s obs rule: merge_observation.induct) (auto simp: keys_write_slots)

lemma keys_update:
  "fst ` set (slots (fst (update dumps st obs))) = fst ` set (slots st) \<union> written_slots obs"
  by (simp add: update_def Let_def keys_merge_observation)

lemma keys_update_all:
  "fst ` set (slots (update_all dumps st os)) = fst ` set (slots st) \<union> \<Union> (written_slots ` set os)"
  by (induction os arbitrary: st) (auto simp: keys_update)

lemma intent_update_all: "intent (update_all dumps st os) = intent st"
  by (induction os arbitrary: st) (auto simp: update_def Let_def)

lemma keys_new_StateTracker:
  "new_StateTracker i = Inr st \<Longrightarrow> static_slots i = Inr fs \<Longrightarrow> fst ` set (slots st) = set fs"
  by (auto simp: new_StateTracker_def initialize_slots_def image_image split: sum.splits)


lemma map_of_write_slots:
  "map_of (write_slots s d) k =
     (case map_of (rev d) k of
        None \<Rightarrow> map_of s k
      | Some v \<Rightarrow> Some (if v = VStr ''null'' \<or> v = VNone then VNone else v))"
proof (induction d arbitrary: s)
  case Nil
  show ?case by simp
next
  case (Cons p rest)
  obtain slot v where p: "p = (slot, v)" by (cases p)
  show ?case
    unfolding p by (cases "map_of (rev rest) k") (simp_all add: Cons.IH update_conv map_add_def)
qed

lemma null_free_AList_update:
  "VStr ''null'' \<notin> snd ` set s \<Longrightarrow> w \<noteq> VStr ''null'' \<Longrightarrow>
   VStr ''null'' \<notin> snd ` set (AList.update k w s)"
  by (induction s) auto

lemma null_free_write_slots:
  "VStr ''null'' \<notin> snd ` set s \<Longrightarrow> VStr ''null'' \<notin> snd ` set (write_slots s d)"
proof (induction d arbitrary: s)
  case Nil
  then show ?case by simp
next
  case (Cons p rest)
  obtain slot v where p: "p = (slot, v)" by (cases p)
  let ?w = "if v \<in> set [VStr ''null'', VNone] then VNone else v"
  have "?w \<noteq> VStr ''null''" by simp
  with Cons.prems have "VStr ''null'' \<notin> snd ` set (AList.update slot ?w s)"
    by (rule null_free_AList_update)
  then have "VStr ''null'' \<notin> snd ` set (write_slots (AList.update slot ?w s) rest)"
    by (rule Cons.IH)
  then show ?case by (simp add: p)
qed

lemma null_free_merge_observation:
  "VStr ''null'' \<notin> snd ` set s \<Longrightarrow> VStr ''null'' \<notin> snd ` set (merge_observation s obs)"
  by (induction s obs rule: merge_observation.induct) (simp_all add: null_free_write_slots)

lemma null_free_update_all:
  "VStr ''null'' \<notin> snd ` set (slots st) \<Longrightarrow>
   VStr ''null'' \<notin> snd ` set (slots (update_all dumps st os))"
  by (induction os arbitrary: st) (simp_all add: update_def Let_def null_free_merge_observation)

lemma null_free_new_StateTracker:
  "new_StateTracker i = Inr st \<Longrightarrow> VStr ''null'' \<notin> snd ` set (slots st)"
  by (auto simp: new_StateTracker_def initialize_slots_def split: sum.splits)

lemma new_beer_info_tracker: "new_StateTracker (VStr ''get_beer_info'') = Inr beer_info_tracker"
  by (simp add: new_StateTracker_def initialize_slots_def intent_slots_def beer_info_tracker_def)

lemma new_brewery_tracker: "new_StateTracker (VStr ''list_beers_by_brewery'') = Inr brewery_tracker"
  by (simp add: new_StateTracker_def initialize_slots_def intent_slots_def brewery_tracker_def)

lemma static_beer_info: "static_slots (VStr ''get_beer_info'') = Inr [''name'', ''brewery'']"
  by (simp add: intent_slots_def)

lemma static_brewery: "static_slots (VStr ''list_beers_by_brewery'') = Inr [''brewery'']"
  by (simp add: intent_slots_def)


text \<open>
  C4, as stated, fails: the string "none" is not a sentinel for \<^verbatim>\<open>update\<close>. A tracker created
  for \<^verbatim>\<open>get_beer_info\<close> that merges \<^verbatim>\<open>{"slots": {"name": "none"}}\<close> stores the string "none"
  under "name".
\<close>

theorem none_sentinel_stored:
  "new_StateTracker (VStr ''get_beer_info'') = Inr beer_info_tracker \<and>
   dict_get (slots (fst (update example_dumps beer_info_tracker obs_name_none))) ''name'' = VStr ''none''"
  by (simp add: new_beer_info_tracker update_def Let_def beer_info_tracker_def obs_name_none_def
      dict_get_def)

text \<open>
  C4, amended: when an observation is merged, a slot value equal to the string "null" or to a
  real null is stored as unset, and every other value (the string "none" too) is stored as it
  is, the last write to a slot winning; so the string "null" is never a slot value of a
  tracker, whatever observations were merged since its creation.
\<close>

theorem null_sentinel_normalized:
  assumes "new_StateTracker i = Inr st"
  shows "VStr ''null'' \<notin> snd ` set (slots (update_all dumps st os)) \<and>
         map_of (write_slots s d) k =
           (case map_of (rev d) k of
              None \<Rightarrow> map_of s k
            | Some v \<Rightarrow> Some (if v = VStr ''null'' \<or> v = VNone then VNone else v))"
proof
  show "VStr ''null'' \<notin> snd ` set (slots (update_all dumps st os))"
    by (rule null_free_update_all) (rule null_free_new_StateTracker [OF assms])
  show "map_of (write_slots s d) k =
           (case map_of (rev d) k of
              None \<Rightarrow> map_of s k
            | Some v \<Rightarrow> Some (if v = VStr ''null'' \<or> v = VNone then VNone else v))"
    by (rule map_of_write_slots)
qed

theorem null_sentinel_normalized_witness:
  "new_StateTracker (VStr ''get_beer_info'') = Inr beer_info_tracker \<and>
   VStr ''null'' \<notin> snd ` set (slots (update_all example_dumps beer_info_tracker [obs_name_null, obs_name_none])) \<and>
   map_of (write_slots (slots beer_info_tracker) [(''name'', VStr ''null'')]) ''name'' = Some VNone"
  using null_sentinel_normalized [OF new_beer_info_tracker, of example_dumps
      "[obs_name_null, obs_name_none]" "slots beer_info_tracker" "[(''name'', VStr ''null'')]" "''name''"]
  by (simp add: new_beer_info_tracker)

text \<open>
  C5, as stated, fails: \<^verbatim>\<open>update\<close> assigns \<^verbatim>\<open>self.slots[slot]\<close> for every slot name of the
  observation, so a name outside the static set becomes a new key. A tracker for
  \<^verbatim>\<open>list_beers_by_brewery\<close> (static slots: brewery) that merges \<^verbatim>\<open>{"slots": {"style": "IPA"}}\<close>
  has the keys brewery and style.
\<close>

theorem key_set_grows:
  "new_StateTracker (VStr ''list_beers_by_brewery'') = Inr brewery_tracker \<and>
   static_slots (VStr ''list_beers_by_brewery'') = Inr [''brewery''] \<and>
   map fst (slots (fst (update example_dumps brewery_tracker obs_style))) = [''brewery'', ''style'']"
  by (simp add: new_brewery_tracker static_brewery update_def Let_def brewery_tracker_def obs_style_def
      del: static_slots.simps)

text \<open>
  C5, amended: the key set of a tracker is the static slot set of its intent at creation, and
  after merging any sequence of observations it is that set together with every slot name the
  observations wrote: keys are never removed, and the key set stays the static one as long as
  the observations name static slots only.
\<close>

theorem key_set_after_merges:
  assumes "new_StateTracker i = Inr st" and "static_slots i = Inr fs"
  shows "fst ` set (slots (update_all dumps st os)) = set fs \<union> \<Union> (written_slots ` set os)"
  using assms by (simp add: keys_update_all keys_new_StateTracker)

theorem key_set_after_merges_witness:
  "new_StateTracker (VStr ''list_beers_by_brewery'') = Inr brewery_tracker \<and>
   static_slots (VStr ''list_beers_by_brewery'') = Inr [''brewery''] \<and>
   fst ` set (slots (update_all example_dumps brewery_tracker [obs_style])) = {''brewery'', ''style''}"
  using key_set_after_merges [OF new_brewery_tracker static_brewery, of example_dumps "[obs_style]"]
  by (simp add: new_brewery_tracker static_brewery obs_style_def insert_commute
      del: static_slots.simps)


lemma keys_safe_slots: "fst ` set (safe_slots s) = fst ` set s"
  by (induction s) (auto simp: safe_slots_def)

lemma map_of_safe_slots:
  "map_of (safe_slots s) k = map_option (\<lambda>v. if v \<noteq> VNone then v else VStr ''null'') (map_of s k)"
  unfolding safe_slots_def map_of_map by simp

lemma intent_new_StateTracker: "new_StateTracker i = Inr st \<Longrightarrow> intent st = i"
  by (auto simp: new_StateTracker_def split: sum.splits)

text \<open>
  C9: for a tracker created for an intent and any observations merged since, \<^verbatim>\<open>serialize\<close>
  renders the dictionary with the intent and a "slots" dictionary that has every statically
  defined slot of the intent as a key; a slot that is unset is there with the string "null",
  a set slot with its value.
\<close>

theorem serialize_lists_every_static_slot:
  assumes "new_StateTracker i = Inr st" and "static_slots i = Inr fs"
  shows "serialize dumps (update_all dumps st os) =
           dumps (VDict [(''intent'', i),
                         (''slots'', VDict (safe_slots (slots (update_all dumps st os))))]) \<and>
         set fs \<subseteq> fst ` set (safe_slots (slots (update_all dumps st os))) \<and>
         (\<forall>k \<in> set fs.
            map_of (safe_slots (slots (update_all dumps st os))) k =
              Some (if dict_get (slots (update_all dumps st os)) k = VNone then VStr ''null''
                    else dict_get (slots (update_all dumps st os)) k))"
proof (intro conjI ballI)
  let ?s = "slots (update_all dumps st os)"
  have keys: "fst ` set ?s = set fs \<union> \<Union> (written_slots ` set os)"
    using assms by (simp add: keys_update_all keys_new_StateTracker)
  show "serialize dumps (update_all dumps st os) =
           dumps (VDict [(''intent'', i), (''slots'', VDict (safe_slots ?s))])"
    by (simp add: serialize_def serialize_view_def intent_update_all
        intent_new_StateTracker [OF assms(1)])
  show "set fs \<subseteq> fst ` set (safe_slots ?s)"
    unfolding keys_safe_slots keys by (rule Un_upper1)
  fix k assume "k \<in> set fs"
  with keys have "k \<in> fst ` set ?s" by simp
  then have "map_of ?s k \<noteq> None" by (simp add: map_of_eq_None_iff)
  then obtain v where "map_of ?s k = Some v" by (cases "map_of ?s k") simp_all
  then show "map_of (safe_slots ?s) k =
      Some (if dict_get ?s k = VNone then VStr ''null'' else dict_get ?s k)"
    by (simp add: map_of_safe_slots dict_get_def)
qed

theorem serialize_lists_every_static_slot_witness:
  "new_StateTracker (VStr ''get_beer_info'') = Inr beer_info_tracker \<and>
   static_slots (VStr ''get_beer_info'') = Inr [''name'', ''brewery''] \<and>
   map_of (safe_slots (slots (update_all example_dumps beer_info_tracker [obs_name_none]))) ''brewery''
     = Some (VStr ''null'') \<and>
   map_of (safe_slots (slots (update_all example_dumps beer_info_tracker [obs_name_none]))) ''name''
     = Some (VStr ''none'')"
  using serialize_lists_every_static_slot [OF new_beer_info_tracker static_beer_info,
      of example_dumps "[obs_name_none]"]
  by (simp add: new_beer_info_tracker static_beer_info obs_name_none_def update_def Let_def
      beer_info_tracker_def dict_get_def del: static_slots.simps)

section \<open>Properties of the decision engine\<close>

lemma name_only_tracker_reached:
  "fst (update dumps beer_info_tracker obs_guinness) = name_only_tracker"
  by (simp add: update_def Let_def beer_info_tracker_def obs_guinness_def name_only_tracker_def)

lemma valid_is_request_or_confirmation:
  assumes "check_response_validity nba state = Inr True"
  shows "\<exists>d. nba = VDict d \<and>
           (dict_get d ''action'' = VStr ''request_info'' \<or> dict_get d ''action'' = VStr ''confirmation'')"
  using assms
  by (cases nba) (auto simp: check_response_validity_def Let_def split: if_splits)

lemma valid_confirmation_full_slots:
  assumes "check_response_validity (VDict d) state = Inr True"
    and "dict_get d ''action'' = VStr ''confirmation''"
  shows "list_all (\<lambda>v. v \<noteq> VNone) (map snd (slots state))"
  using assms
  by (auto simp: check_response_validity_def Let_def split: if_splits)

lemma valid_request_beer_info_name:
  assumes "check_response_validity (VDict d) state = Inr True"
    and "dict_get d ''action'' = VStr ''request_info''"
    and "intent state = VStr ''get_beer_info''"
  shows "dict_get d ''parameter'' = VStr ''name''"
  using assms
  by (auto simp: check_response_validity_def Let_def split: if_splits sum.splits)

lemma no_proposal_valid_with_name_only:
  "check_response_validity nba name_only_tracker \<noteq> Inr True"
proof
  assume v: "check_response_validity nba name_only_tracker = Inr True"
  then obtain d where d: "nba = VDict d"
    and a: "dict_get d ''action'' = VStr ''request_info'' \<or> dict_get d ''action'' = VStr ''confirmation''"
    using valid_is_request_or_confirmation by blast
  from a show False
  proof
    assume r: "dict_get d ''action'' = VStr ''request_info''"
    have "dict_get d ''parameter'' = VStr ''name''"
      by (rule valid_request_beer_info_name [OF v [unfolded d] r]) (simp add: name_only_tracker_def)
    with v r show False
      by (simp add: d check_response_validity_def Let_def name_only_tracker_def dict_get_def
          lower_def lower_char_def)
  next
    assume c: "dict_get d ''action'' = VStr ''confirmation''"
    from valid_confirmation_full_slots [OF v [unfolded d] c] show False
      by (simp add: name_only_tracker_def)
  qed
qed

lemma interactive_loop_never_accepts_with_name_only:
  "query_until_valid False name_only_tracker replies \<noteq> Some (Inr accepted)"
proof (induction replies)
  case Nil
  show ?case by simp
next
  case (Cons r replies)
  show ?case
  proof (cases r)
    case None
    with Cons show ?thesis by simp
  next
    case (Some parsed)
    show ?thesis
    proof (cases "check_response_validity parsed name_only_tracker")
      case (Inl e)
      with Some show ?thesis by simp
    next
      case (Inr valid)
      with no_proposal_valid_with_name_only [of parsed] have "\<not> valid" by auto
      with Some Inr Cons show ?thesis by simp
    qed
  qed
qed


lemma emit_appends:
  assumes "emit parsed vars = Some (Inr vars')"
  shows "\<exists>a p r. map_of parsed ''action'' = Some a \<and> map_of parsed ''parameter'' = Some p \<and>
           result vars = Some r \<and>
           vars' = vars\<lparr>final_actions := final_actions vars @
                      [VDict [(''action'', a), (''parameter'', p), (''data'', r)]]\<rparr>"
  using assms by (auto simp: emit_def split: option.splits)

lemma handle_confirmation_parameter:
  assumes "handle_confirmation fbi rur dm d = Some (Inr (r, dm'))"
  shows "map_of d ''parameter'' \<noteq> None"
  using assms by (auto simp: handle_confirmation_def split: option.splits)

lemma handle_confirmation_registry:
  assumes "handle_confirmation fbi rur dm d = Some (Inr (r, dm'))"
  shows "state_stack dm' = state_stack dm \<and> eval_mode dm' = eval_mode dm"
  using assms
  by (auto simp: handle_confirmation_def split: option.splits if_splits sum.splits)

lemma dispatch_confirmation:
  assumes conf: "map_of d ''action'' = Some (VStr ''confirmation'')"
    and res: "handle_confirmation fbi rur (engine vars) d = Some (Inr (r, dm'))"
  shows "dispatch fbi rur dumps idx state (VDict d) vars =
     Some (Inr (if truthy r
        then vars\<lparr>final_actions := final_actions vars @
                 [VDict [(''action'', VStr ''confirmation''),
                         (''parameter'', dict_get d ''parameter''), (''data'', r)]],
               remove_indices := remove_indices vars @ [idx],
               result := Some r, engine := dm'\<rparr>
        else vars\<lparr>final_actions := final_actions vars @
                 [VDict [(''action'', VStr ''check_info''),
                         (''parameter'', dict_get d ''parameter''),
                         (''data'', VStr (serialize dumps state))]],
               result := Some (VStr (serialize dumps state)), engine := dm'\<rparr>))"
proof -
  from handle_confirmation_parameter [OF res] obtain p where p: "map_of d ''parameter'' = Some p"
    by blast
  show ?thesis
    by (simp add: dispatch_def conf res emit_def p dict_get_def)
qed

lemma dispatch_step:
  assumes "dispatch fbi rur dumps idx state parsed vars = Some (Inr vars')"
  shows "\<exists>act. final_actions vars' = final_actions vars @ [act] \<and>
           (remove_indices vars' = remove_indices vars \<or>
            remove_indices vars' = remove_indices vars @ [idx]) \<and>
           state_stack (engine vars') = state_stack (engine vars) \<and>
           eval_mode (engine vars') = eval_mode (engine vars)"
proof -
  from assms obtain d where d: "parsed = VDict d"
    by (cases parsed) (simp_all add: dispatch_def)
  from assms d obtain a where a: "map_of d ''action'' = Some a"
    by (cases "map_of d ''action''") (simp_all add: dispatch_def)
  show ?thesis
  proof (cases "a = VStr ''confirmation''")
    case True
    with assms d a obtain r dm' where
      res: "handle_confirmation fbi rur (engine vars) d = Some (Inr (r, dm'))"
      by (auto simp: dispatch_def split: option.splits sum.splits)
    from dispatch_confirmation [OF a [unfolded True] res, of dumps idx state] assms d
    have "vars' = (if truthy r
        then vars\<lparr>final_actions := final_actions vars @
                 [VDict [(''action'', VStr ''confirmation''),
                         (''parameter'', dict_get d ''parameter''), (''data'', r)]],
               remove_indices := remove_indices vars @ [idx],
               result := Some r, engine := dm'\<rparr>
        else vars\<lparr>final_actions := final_actions vars @
                 [VDict [(''action'', VStr ''check_info''),
                         (''parameter'', dict_get d ''parameter''),
                         (''data'', VStr (serialize dumps state))]],
               result := Some (VStr (serialize dumps state)), engine := dm'\<rparr>)"
      by simp
    with handle_confirmation_registry [OF res] show ?thesis
      by (cases "truthy r") simp_all
  next
    case False
    show ?thesis
    proof (cases "a = VStr ''request_info''")
      case True
      with assms d a False obtain i where
        "emit d (vars\<lparr>result := Some (VStr (''intent: '' @ i))\<rparr>) = Some (Inr vars')"
        by (auto simp: dispatch_def split: sum.splits)
      from emit_appends [OF this] show ?thesis by auto
    next
      case other: False
      with assms d a False have "emit d vars = Some (Inr vars')"
        by (simp add: dispatch_def)
      from emit_appends [OF this] show ?thesis by auto
    qed
  qed
qed

lemma run_states_extends:
  assumes "run_states fbi rur dumps xs replies vars = Some (Inr vars')"
  shows "(\<exists>new. final_actions vars' = final_actions vars @ new \<and> length new = length xs) \<and>
         set (remove_indices vars) \<subseteq> set (remove_indices vars') \<and>
         set (remove_indices vars') \<subseteq> set (remove_indices vars) \<union> fst ` set xs \<and>
         state_stack (engine vars') = state_stack (engine vars) \<and>
         eval_mode (engine vars') = eval_mode (engine vars)"
  using assms
proof (induction xs arbitrary: replies vars)
  case Nil
  then show ?case by simp
next
  case (Cons x xs)
  obtain idx state where x: "x = (idx, state)" by (cases x)
  from Cons.prems x obtain parsed replies' vars1 where
    q: "query_until_valid (eval_mode (engine vars)) state replies = Some (Inr (parsed, replies'))"
    and dsp: "dispatch fbi rur dumps idx state parsed vars = Some (Inr vars1)"
    and rest: "run_states fbi rur dumps xs replies' vars1 = Some (Inr vars')"
    by (auto split: option.splits sum.splits)
  from dispatch_step [OF dsp] obtain act where
    a1: "final_actions vars1 = final_actions vars @ [act]"
    and r1: "remove_indices vars1 = remove_indices vars \<or>
             remove_indices vars1 = remove_indices vars @ [idx]"
    and s1: "state_stack (engine vars1) = state_stack (engine vars)"
    and e1: "eval_mode (engine vars1) = eval_mode (engine vars)"
    by blast
  from Cons.IH [OF rest] obtain new where
    a2: "final_actions vars' = final_actions vars1 @ new" and l2: "length new = length xs"
    and r2: "set (remove_indices vars1) \<subseteq> set (remove_indices vars')"
    and r3: "set (remove_indices vars') \<subseteq> set (remove_indices vars1) \<union> fst ` set xs"
    and s2: "state_stack (engine vars') = state_stack (engine vars1)"
    and e2: "eval_mode (engine vars') = eval_mode (engine vars1)"
    by blast
  have "final_actions vars' = final_actions vars @ (act # new) \<and> length (act # new) = length (x # xs)"
    using a1 a2 l2 by simp
  then have A: "\<exists>new. final_actions vars' = final_actions vars @ new \<and> length new = length (x # xs)"
    by blast
  have B: "set (remove_indices vars) \<subseteq> set (remove_indices vars')"
    using r1 r2 by auto
  have C: "set (remove_indices vars') \<subseteq> set (remove_indices vars) \<union> fst ` set (x # xs)"
    using r1 r3 x by auto
  from A B C s1 s2 e1 e2 show ?case by simp
qed


text \<open>
  C1: the override for \<^verbatim>\<open>get_beer_info\<close> is not reached for a confirmation while a slot is
  unset: for a tracker of \<^verbatim>\<open>get_beer_info\<close> with its name set and another slot (the brewery)
  unset, every confirmation proposal is rejected, by line 157, before the override of lines 160
  to 162 is read. The witness is the tracker that has merged \<^verbatim>\<open>{"slots": {"name": "Guinness"}}\<close>
  and the proposal \<^verbatim>\<open>{"action": "confirmation", "parameter": "get_beer_info"}\<close>.
  (By \<open>no_proposal_valid_with_name_only\<close> no proposal at all is valid in that state, and by
  \<open>interactive_loop_never_accepts_with_name_only\<close> the retry loop of the interactive mode
  never leaves it.)
\<close>

theorem confirmation_rejected_with_name_set:
  assumes "intent state = VStr ''get_beer_info''"
    and "dict_get (slots state) ''name'' \<noteq> VNone"
    and "\<not> list_all (\<lambda>v. v \<noteq> VNone) (map snd (slots state))"
    and "dict_get d ''action'' = VStr ''confirmation''"
  shows "check_response_validity (VDict d) state = Inr False"
  using assms by (simp add: check_response_validity_def Let_def)

theorem confirmation_rejected_with_name_set_witness:
  "intent (fst (update example_dumps beer_info_tracker obs_guinness)) = VStr ''get_beer_info'' \<and>
   dict_get (slots (fst (update example_dumps beer_info_tracker obs_guinness))) ''name''
     = VStr ''Guinness'' \<and>
   dict_get (slots (fst (update example_dumps beer_info_tracker obs_guinness))) ''brewery'' = VNone \<and>
   check_response_validity confirm_beer_info (fst (update example_dumps beer_info_tracker obs_guinness))
     = Inr False"
  using confirmation_rejected_with_name_set [of name_only_tracker
      "[(''action'', VStr ''confirmation''), (''parameter'', VStr ''get_beer_info'')]"]
  by (simp add: name_only_tracker_reached confirm_beer_info_def name_only_tracker_def dict_get_def)



lemma call_registry:
  assumes "call fbi rur dumps replies dm nlu_inputs = Some (Inr (acts, dm'))"
    and "\<not> (length nlu_inputs = 1 \<and> dict_get (hd nlu_inputs) ''intent'' = VStr ''terminate_system'')"
  shows "\<exists>stack vars.
           update_states dumps (state_stack dm) nlu_inputs = Inr stack \<and>
           run_states fbi rur dumps (enumerate 0 stack) replies
             \<lparr>final_actions = [], remove_indices = [], result = None,
              engine = dm\<lparr>state_stack := stack\<rparr>\<rparr> = Some (Inr vars) \<and>
           acts = final_actions vars \<and> length acts = length stack \<and>
           state_stack dm' =
             map snd (filter (\<lambda>(i, s). i \<notin> set (remove_indices vars)) (enumerate 0 stack))"
proof -
  from assms obtain stack where st: "update_states dumps (state_stack dm) nlu_inputs = Inr stack"
    by (auto simp: call_def split: sum.splits)
  let ?v0 = "\<lparr>final_actions = [], remove_indices = [], result = None,
              engine = dm\<lparr>state_stack := stack\<rparr>\<rparr>"
  from assms st obtain vars where
    run: "run_states fbi rur dumps (enumerate 0 stack) replies ?v0 = Some (Inr vars)"
    and out: "acts = final_actions vars"
      "dm' = (engine vars)\<lparr>state_stack :=
                       map snd (filter (\<lambda>(i, s). i \<notin> set (remove_indices vars))
                                  (enumerate 0 (state_stack (engine vars))))\<rparr>"
    by (auto simp: call_def split: option.splits sum.splits)
  from run_states_extends [OF run] have
    len: "length (final_actions vars) = length stack"
    and stk: "state_stack (engine vars) = stack"
    by auto
  from st run out len stk show ?thesis by auto
qed



lemma accepted_is_valid:
  assumes "query_until_valid False state replies = Some (Inr (parsed, replies'))"
  shows "check_response_validity parsed state = Inr True"
  using assms
proof (induction replies)
  case Nil
  then show ?case by simp
next
  case (Cons r replies)
  then show ?case
    by (cases r) (auto split: sum.splits if_splits)
qed

text \<open>
  C10, as stated, fails in evaluation mode, where \<^verbatim>\<open>__call__\<close> skips the validation: with the
  observations of two intents and the replies \<^verbatim>\<open>request_info\<close> for the first and \<^verbatim>\<open>check_info\<close>
  for the second, the \<^verbatim>\<open>check_info\<close> proposal is accepted as it is and emitted (with the data of
  the iteration before, since no branch assigns \<open>result\<close> for it).
\<close>

theorem check_info_accepted_in_evaluation_mode:
  "call empty_fbi empty_rur example_dumps [Some request_name, Some check_brewery] evaluation_dm
      [obs_beer_info, obs_brewery]
   = Some (Inr ([VDict [(''action'', VStr ''request_info''), (''parameter'', VStr ''name''),
                        (''data'', VStr ''intent: get_beer_info'')],
                 VDict [(''action'', VStr ''check_info''), (''parameter'', VStr ''brewery''),
                        (''data'', VStr ''intent: get_beer_info'')]],
                evaluation_dm\<lparr>state_stack := [beer_info_tracker, brewery_tracker]\<rparr>))"
  by (simp add: call_def evaluation_dm_def obs_beer_info_def obs_brewery_def request_name_def
      check_brewery_def dict_get_def new_StateTracker_def initialize_slots_def intent_slots_def
      update_def Let_def dispatch_def emit_def enumerate_eq_zip beer_info_tracker_def
      brewery_tracker_def upt_rec)

text \<open>
  C10, amended: validation accepts a parsed proposal only if it is a dictionary whose action is
  exactly "request_info" or "confirmation", so a proposal tagged "check_info" is always
  rejected by it; and in interactive mode (validation is skipped in evaluation mode) the action
  emitted for a tracker is tagged "check_info" only by the downgrade: the accepted proposal was
  a confirmation, the query result was empty, and the data is the tracker's serialized state.
\<close>

theorem check_info_only_by_downgrade:
  "(check_response_validity nba st = Inr True \<longrightarrow>
      (\<exists>d. nba = VDict d \<and>
        (dict_get d ''action'' = VStr ''request_info'' \<or>
         dict_get d ''action'' = VStr ''confirmation''))) \<and>
   (query_until_valid False state replies = Some (Inr (parsed, replies')) \<and>
    dispatch fbi rur dumps idx state parsed vars = Some (Inr vars') \<longrightarrow>
      (\<exists>d a p r. parsed = VDict d \<and>
         final_actions vars' = final_actions vars @
           [VDict [(''action'', a), (''parameter'', p), (''data'', r)]] \<and>
         (a = VStr ''check_info'' \<longrightarrow>
            dict_get d ''action'' = VStr ''confirmation'' \<and>
            r = VStr (serialize dumps state) \<and>
            (\<exists>res dm'. handle_confirmation fbi rur (engine vars) d = Some (Inr (res, dm')) \<and>
               \<not> truthy res))))"
proof (intro conjI impI)
  assume "check_response_validity nba st = Inr True"
  then show "\<exists>d. nba = VDict d \<and>
        (dict_get d ''action'' = VStr ''request_info'' \<or>
         dict_get d ''action'' = VStr ''confirmation'')"
    by (rule valid_is_request_or_confirmation)
next
  assume "query_until_valid False state replies = Some (Inr (parsed, replies')) \<and>
    dispatch fbi rur dumps idx state parsed vars = Some (Inr vars')"
  then have q: "query_until_valid False state replies = Some (Inr (parsed, replies'))"
    and dsp: "dispatch fbi rur dumps idx state parsed vars = Some (Inr vars')"
    by simp_all
  from valid_is_request_or_confirmation [OF accepted_is_valid [OF q]] obtain d where
    d: "parsed = VDict d" and
    a: "dict_get d ''action'' = VStr ''request_info'' \<or> dict_get d ''action'' = VStr ''confirmation''"
    by blast
  from a show "\<exists>d a p r. parsed = VDict d \<and>
         final_actions vars' = final_actions vars @
           [VDict [(''action'', a), (''parameter'', p), (''data'', r)]] \<and>
         (a = VStr ''check_info'' \<longrightarrow>
            dict_get d ''action'' = VStr ''confirmation'' \<and>
            r = VStr (serialize dumps state) \<and>
            (\<exists>res dm'. handle_confirmation fbi rur (engine vars) d = Some (Inr (res, dm')) \<and>
               \<not> truthy res))"
  proof
    assume req: "dict_get d ''action'' = VStr ''request_info''"
    then have m: "map_of d ''action'' = Some (VStr ''request_info'')"
      by (cases "map_of d ''action''") (simp_all add: dict_get_def)
    from dsp d m obtain i where
      "emit d (vars\<lparr>result := Some (VStr (''intent: '' @ i))\<rparr>) = Some (Inr vars')"
      by (auto simp: dispatch_def split: sum.splits)
    from emit_appends [OF this] m d show ?thesis by auto
  next
    assume c: "dict_get d ''action'' = VStr ''confirmation''"
    then have m: "map_of d ''action'' = Some (VStr ''confirmation'')"
      by (cases "map_of d ''action''") (simp_all add: dict_get_def)
    from dsp d m obtain res dm' where
      res: "handle_confirmation fbi rur (engine vars) d = Some (Inr (res, dm'))"
      by (auto simp: dispatch_def split: option.splits sum.splits)
    from dispatch_confirmation [OF m res, of dumps idx state] dsp d c res show ?thesis
      by (cases "truthy res") auto
  qed
qed


theorem check_info_only_by_downgrade_witness:
  "check_response_validity confirm_beer_info out_of_context_tracker = Inr True \<and>
   query_until_valid False out_of_context_tracker [Some check_brewery, Some confirm_beer_info]
     = Some (Inr (confirm_beer_info, [])) \<and>
   dispatch empty_fbi empty_rur example_dumps 0 out_of_context_tracker confirm_beer_info start_vars
     = Some (Inr (start_vars\<lparr>final_actions :=
          [VDict [(''action'', VStr ''check_info''), (''parameter'', VStr ''get_beer_info''),
                  (''data'', VStr (serialize example_dumps out_of_context_tracker))]],
          result := Some (VStr (serialize example_dumps out_of_context_tracker))\<rparr>)) \<and>
   (\<exists>d. confirm_beer_info = VDict d \<and> dict_get d ''action'' = VStr ''confirmation'' \<and>
      (\<exists>res dm'. handle_confirmation empty_fbi empty_rur (engine start_vars) d = Some (Inr (res, dm')) \<and>
         \<not> truthy res))"
proof -
  let ?vars' = "start_vars\<lparr>final_actions :=
          [VDict [(''action'', VStr ''check_info''), (''parameter'', VStr ''get_beer_info''),
                  (''data'', VStr (serialize example_dumps out_of_context_tracker))]],
          result := Some (VStr (serialize example_dumps out_of_context_tracker))\<rparr>"
  have valid: "check_response_validity confirm_beer_info out_of_context_tracker = Inr True"
    by (simp add: out_of_context_tracker_def confirm_beer_info_def check_response_validity_def
        dict_get_def lower_def lower_char_def)
  have rejected: "check_response_validity check_brewery out_of_context_tracker = Inr False"
    by (simp add: check_brewery_def check_response_validity_def dict_get_def)
  have q: "query_until_valid False out_of_context_tracker [Some check_brewery, Some confirm_beer_info]
     = Some (Inr (confirm_beer_info, []))"
    by (simp add: valid rejected)
  have dsp: "dispatch empty_fbi empty_rur example_dumps 0 out_of_context_tracker confirm_beer_info
      start_vars = Some (Inr ?vars')"
    by (simp add: dispatch_def confirm_beer_info_def handle_confirmation_def start_vars_def
        interactive_dm_def out_of_context_tracker_def emit_def dict_get_def)
  from check_info_only_by_downgrade [of confirm_beer_info out_of_context_tracker
      out_of_context_tracker "[Some check_brewery, Some confirm_beer_info]" confirm_beer_info "[]"
      empty_fbi empty_rur example_dumps 0 start_vars ?vars'] valid q dsp
  have "\<exists>d a p r. confirm_beer_info = VDict d \<and>
         final_actions ?vars' = final_actions start_vars @
           [VDict [(''action'', a), (''parameter'', p), (''data'', r)]] \<and>
         (a = VStr ''check_info'' \<longrightarrow>
            dict_get d ''action'' = VStr ''confirmation'' \<and>
            r = VStr (serialize example_dumps out_of_context_tracker) \<and>
            (\<exists>res dm'. handle_confirmation empty_fbi empty_rur (engine start_vars) d = Some (Inr (res, dm')) \<and>
               \<not> truthy res))"
    by blast
  then have "\<exists>d. confirm_beer_info = VDict d \<and> dict_get d ''action'' = VStr ''confirmation'' \<and>
      (\<exists>res dm'. handle_confirmation empty_fbi empty_rur (engine start_vars) d = Some (Inr (res, dm')) \<and>
         \<not> truthy res)"
    by (auto simp: start_vars_def)
  with valid q dsp show ?thesis by blast
qed

lemma action_of_emitted [simp]:
  "action_of (VDict [(''action'', a), (''parameter'', p), (''data'', r)]) = a"
  "data_of (VDict [(''action'', a), (''parameter'', p), (''data'', r)]) = r"
  by (simp_all add: action_of_def data_of_def dict_get_def)

lemma dispatch_outcome:
  assumes "dispatch fbi rur dumps idx state parsed vars = Some (Inr vars')"
  shows "\<exists>act. final_actions vars' = final_actions vars @ [act] \<and>
           remove_indices vars' =
             remove_indices vars @ (if action_of act = VStr ''confirmation'' then [idx] else []) \<and>
           (action_of act = VStr ''confirmation'' \<longrightarrow> truthy (data_of act)) \<and>
           (action_of parsed = VStr ''request_info'' \<or> action_of parsed = VStr ''confirmation'' \<longrightarrow>
            action_of act = VStr ''check_info'' \<longrightarrow> data_of act = VStr (serialize dumps state))"
proof -
  from assms obtain d where d: "parsed = VDict d"
    by (cases parsed) (simp_all add: dispatch_def)
  from assms d obtain a where a: "map_of d ''action'' = Some a"
    by (cases "map_of d ''action''") (simp_all add: dispatch_def)
  then have tag: "action_of parsed = a" by (simp add: d action_of_def dict_get_def)
  show ?thesis
  proof (cases "a = VStr ''confirmation''")
    case True
    with assms d a obtain r dm' where
      res: "handle_confirmation fbi rur (engine vars) d = Some (Inr (r, dm'))"
      by (auto simp: dispatch_def split: option.splits sum.splits)
    note eq = dispatch_confirmation [OF a [unfolded True] res, of dumps idx state]
    show ?thesis
    proof (cases "truthy r")
      case True
      with eq assms d have "vars' = vars\<lparr>final_actions := final_actions vars @
                 [VDict [(''action'', VStr ''confirmation''),
                         (''parameter'', dict_get d ''parameter''), (''data'', r)]],
               remove_indices := remove_indices vars @ [idx],
               result := Some r, engine := dm'\<rparr>"
        by simp
      with True show ?thesis
        by (intro exI [of _ "VDict [(''action'', VStr ''confirmation''),
                         (''parameter'', dict_get d ''parameter''), (''data'', r)]"]) simp
    next
      case False
      with eq assms d have "vars' = vars\<lparr>final_actions := final_actions vars @
                 [VDict [(''action'', VStr ''check_info''),
                         (''parameter'', dict_get d ''parameter''),
                         (''data'', VStr (serialize dumps state))]],
               result := Some (VStr (serialize dumps state)), engine := dm'\<rparr>"
        by simp
      then show ?thesis
        by (intro exI [of _ "VDict [(''action'', VStr ''check_info''),
                         (''parameter'', dict_get d ''parameter''),
                         (''data'', VStr (serialize dumps state))]"]) simp
    qed
  next
    case False
    have "\<exists>v. emit d v = Some (Inr vars') \<and> final_actions v = final_actions vars \<and>
        remove_indices v = remove_indices vars"
    proof (cases "a = VStr ''request_info''")
      case True
      with assms d a False obtain i where
        "emit d (vars\<lparr>result := Some (VStr (''intent: '' @ i))\<rparr>) = Some (Inr vars')"
        by (auto simp: dispatch_def split: sum.splits)
      then show ?thesis
        by (intro exI [of _ "vars\<lparr>result := Some (VStr (''intent: '' @ i))\<rparr>"]) simp
    next
      case other: False
      with assms d a False have "emit d vars = Some (Inr vars')"
        by (simp add: dispatch_def)
      then show ?thesis by (intro exI [of _ vars]) simp
    qed
    then obtain v where e: "emit d v = Some (Inr vars')"
      and fa: "final_actions v = final_actions vars" and ri: "remove_indices v = remove_indices vars"
      by blast
    from emit_appends [OF e] a obtain p r where
      v': "vars' = v\<lparr>final_actions := final_actions v @
                      [VDict [(''action'', a), (''parameter'', p), (''data'', r)]]\<rparr>"
      by auto
    show ?thesis
      using False tag
      by (intro exI [of _ "VDict [(''action'', a), (''parameter'', p), (''data'', r)]"])
        (simp add: v' fa ri)
  qed
qed

lemma accepted_tag:
  assumes "query_until_valid False state replies = Some (Inr (parsed, replies'))"
  shows "action_of parsed = VStr ''request_info'' \<or> action_of parsed = VStr ''confirmation''"
  using valid_is_request_or_confirmation [OF accepted_is_valid [OF assms]]
  by (auto simp: action_of_def)

lemma run_states_outcome:
  assumes "run_states fbi rur dumps xs replies vars = Some (Inr vars')"
  shows "\<exists>new. final_actions vars' = final_actions vars @ new \<and> length new = length xs \<and>
           set (remove_indices vars') = set (remove_indices vars) \<union>
             {fst x | x a. (x, a) \<in> set (zip xs new) \<and> action_of a = VStr ''confirmation''} \<and>
           (\<forall>(x, a) \<in> set (zip xs new).
              (action_of a = VStr ''confirmation'' \<longrightarrow> truthy (data_of a)) \<and>
              (\<not> eval_mode (engine vars) \<longrightarrow> action_of a = VStr ''check_info'' \<longrightarrow>
                 data_of a = VStr (serialize dumps (snd x))))"
  using assms
proof (induction xs arbitrary: replies vars)
  case Nil
  then show ?case by simp
next
  case (Cons x xs)
  obtain idx state where x: "x = (idx, state)" by (cases x)
  from Cons.prems x obtain parsed replies' vars1 where
    q: "query_until_valid (eval_mode (engine vars)) state replies = Some (Inr (parsed, replies'))"
    and dsp: "dispatch fbi rur dumps idx state parsed vars = Some (Inr vars1)"
    and rest: "run_states fbi rur dumps xs replies' vars1 = Some (Inr vars')"
    by (auto split: option.splits sum.splits)
  from dispatch_outcome [OF dsp] obtain act where
    a1: "final_actions vars1 = final_actions vars @ [act]"
    and r1: "remove_indices vars1 =
             remove_indices vars @ (if action_of act = VStr ''confirmation'' then [idx] else [])"
    and t1: "action_of act = VStr ''confirmation'' \<longrightarrow> truthy (data_of act)"
    and c1: "action_of parsed = VStr ''request_info'' \<or> action_of parsed = VStr ''confirmation'' \<longrightarrow>
            action_of act = VStr ''check_info'' \<longrightarrow> data_of act = VStr (serialize dumps state)"
    by blast
  have c1': "\<not> eval_mode (engine vars) \<longrightarrow> action_of act = VStr ''check_info'' \<longrightarrow>
      data_of act = VStr (serialize dumps state)"
  proof
    assume "\<not> eval_mode (engine vars)"
    with q have "query_until_valid False state replies = Some (Inr (parsed, replies'))" by simp
    from accepted_tag [OF this] c1
    show "action_of act = VStr ''check_info'' \<longrightarrow> data_of act = VStr (serialize dumps state)"
      by blast
  qed
  from dispatch_step [OF dsp] have e1: "eval_mode (engine vars1) = eval_mode (engine vars)"
    by blast
  from Cons.IH [OF rest] obtain new where
    a2: "final_actions vars' = final_actions vars1 @ new" and l2: "length new = length xs"
    and r2: "set (remove_indices vars') = set (remove_indices vars1) \<union>
             {fst x | x a. (x, a) \<in> set (zip xs new) \<and> action_of a = VStr ''confirmation''}"
    and p2: "\<forall>(x, a) \<in> set (zip xs new).
              (action_of a = VStr ''confirmation'' \<longrightarrow> truthy (data_of a)) \<and>
              (\<not> eval_mode (engine vars1) \<longrightarrow> action_of a = VStr ''check_info'' \<longrightarrow>
                 data_of a = VStr (serialize dumps (snd x)))"
    by blast
  have A: "final_actions vars' = final_actions vars @ (act # new)" using a1 a2 by simp
  have L: "length (act # new) = length (x # xs)" using l2 by simp
  have R: "set (remove_indices vars') = set (remove_indices vars) \<union>
             {fst y | y a. (y, a) \<in> set (zip (x # xs) (act # new)) \<and>
                           action_of a = VStr ''confirmation''}"
    unfolding r2 r1 x by auto
  have P: "\<forall>(y, a) \<in> set (zip (x # xs) (act # new)).
              (action_of a = VStr ''confirmation'' \<longrightarrow> truthy (data_of a)) \<and>
              (\<not> eval_mode (engine vars) \<longrightarrow> action_of a = VStr ''check_info'' \<longrightarrow>
                 data_of a = VStr (serialize dumps (snd y)))"
    using p2 t1 c1' e1 x by auto
  from A L R P show ?case by blast
qed

text \<open>
  The whole turn, read from its output: the trackers that leave the registry are those whose
  action is tagged "confirmation", such an action carries a non-empty result, and in
  interactive mode an action tagged "check_info" carries the serialized state of its tracker.
\<close>

lemma call_outcome:
  assumes ret: "call fbi rur dumps replies dm nlu_inputs = Some (Inr (acts, dm'))"
    and go: "\<not> (length nlu_inputs = 1 \<and> dict_get (hd nlu_inputs) ''intent'' = VStr ''terminate_system'')"
  shows "\<exists>stack. update_states dumps (state_stack dm) nlu_inputs = Inr stack \<and>
           length acts = length stack \<and>
           state_stack dm' =
             map snd (filter (\<lambda>(i, s). action_of (acts ! i) \<noteq> VStr ''confirmation'')
                        (enumerate 0 stack)) \<and>
           (\<forall>i < length stack.
              (action_of (acts ! i) = VStr ''confirmation'' \<longrightarrow> truthy (data_of (acts ! i))) \<and>
              (\<not> eval_mode dm \<longrightarrow> action_of (acts ! i) = VStr ''check_info'' \<longrightarrow>
                 data_of (acts ! i) = VStr (serialize dumps (stack ! i))))"
proof -
  from call_registry [OF ret go] obtain stack vars where
    st: "update_states dumps (state_stack dm) nlu_inputs = Inr stack"
    and run: "run_states fbi rur dumps (enumerate 0 stack) replies
             \<lparr>final_actions = [], remove_indices = [], result = None,
              engine = dm\<lparr>state_stack := stack\<rparr>\<rparr> = Some (Inr vars)"
    and acts: "acts = final_actions vars" and len: "length acts = length stack"
    and reg: "state_stack dm' =
             map snd (filter (\<lambda>(i, s). i \<notin> set (remove_indices vars)) (enumerate 0 stack))"
    by blast
  from run_states_outcome [OF run] acts have
    rem: "set (remove_indices vars) =
             {fst x | x a. (x, a) \<in> set (zip (enumerate 0 stack) acts) \<and>
                           action_of a = VStr ''confirmation''}"
    and props: "\<forall>(x, a) \<in> set (zip (enumerate 0 stack) acts).
              (action_of a = VStr ''confirmation'' \<longrightarrow> truthy (data_of a)) \<and>
              (\<not> eval_mode dm \<longrightarrow> action_of a = VStr ''check_info'' \<longrightarrow>
                 data_of a = VStr (serialize dumps (snd x)))"
    by auto
  have zip_nth: "((i, stack ! i), acts ! i) \<in> set (zip (enumerate 0 stack) acts)"
    if "i < length stack" for i
  proof -
    from that len have "i < length (zip (enumerate 0 stack) acts)" by simp
    from nth_mem [OF this] that len show ?thesis by (simp add: nth_enumerate_eq)
  qed
  have zip_only: "a = acts ! i \<and> s = stack ! i \<and> i < length stack"
    if "((i, s), a) \<in> set (zip (enumerate 0 stack) acts)" for i s a
  proof -
    from that obtain j where j: "j < length (zip (enumerate 0 stack) acts)"
      "zip (enumerate 0 stack) acts ! j = ((i, s), a)"
      by (auto simp: in_set_conv_nth)
    then show ?thesis using len by (auto simp: nth_enumerate_eq)
  qed
  have in_rem: "i \<in> set (remove_indices vars) \<longleftrightarrow> action_of (acts ! i) = VStr ''confirmation''"
    if "i < length stack" for i
  proof
    assume "i \<in> set (remove_indices vars)"
    with rem obtain s a where "((i, s), a) \<in> set (zip (enumerate 0 stack) acts)"
      "action_of a = VStr ''confirmation''" by auto
    with zip_only show "action_of (acts ! i) = VStr ''confirmation''" by blast
  next
    assume "action_of (acts ! i) = VStr ''confirmation''"
    with zip_nth [OF that] show "i \<in> set (remove_indices vars)"
      unfolding rem by force
  qed
  have filt: "filter (\<lambda>(i, s). i \<notin> set (remove_indices vars)) (enumerate 0 stack) =
      filter (\<lambda>(i, s). action_of (acts ! i) \<noteq> VStr ''confirmation'') (enumerate 0 stack)"
    by (rule filter_cong [OF refl]) (auto simp: in_set_enumerate_eq in_rem)
  have each: "(action_of (acts ! i) = VStr ''confirmation'' \<longrightarrow> truthy (data_of (acts ! i))) \<and>
              (\<not> eval_mode dm \<longrightarrow> action_of (acts ! i) = VStr ''check_info'' \<longrightarrow>
                 data_of (acts ! i) = VStr (serialize dumps (stack ! i)))"
    if "i < length stack" for i
    using props zip_nth [OF that] by fastforce
  from st len reg filt each show ?thesis by simp
qed

section \<open>Properties of the catalog query engine\<close>

subsection \<open>The rating filter\<close>








subsection \<open>The style filter\<close>


lemma set_unique_from: "set (unique_from seen xs) = set xs - set seen"
  by (induction seen xs rule: unique_from.induct) auto

lemma distinct_unique_from: "distinct (unique_from seen xs)"
  by (induction seen xs rule: unique_from.induct) (auto simp: set_unique_from)


lemma distinct_unique: "distinct (unique xs)"
  by (simp add: unique_def distinct_unique_from)

lemma merge_inner_distinct:
  "distinct right \<Longrightarrow> merge_inner left right = filter (\<lambda>l. l \<in> set right) left"
proof (induction left)
  case Nil
  show ?case by (simp add: merge_inner_def)
next
  case (Cons l left)
  have "filter (\<lambda>r. r = l) right = (if l \<in> set right then [l] else [])"
    using Cons.prems by (induction right) auto
  with Cons show ?case by (simp add: merge_inner_def)
qed

lemma set_merge_inner: "set (merge_inner left right) = set left \<inter> set right"
  by (auto simp: merge_inner_def)

lemma style_filter_both_nonempty:
  assumes "\<not> list_ex (\<lambda>r. Style r = None) rows"
    and "df_substr query rows \<noteq> []" and "df_fuzzy scorer query rows \<noteq> []"
  shows "filter_by_style scorer query rows =
     Inr (if set (df_substr query rows) \<inter> set (df_fuzzy scorer query rows) \<noteq> {}
          then merge_inner (df_substr query rows) (df_fuzzy scorer query rows)
          else unique (df_substr query rows @ df_fuzzy scorer query rows))"
proof -
  have "merge_inner (df_substr query rows) (df_fuzzy scorer query rows) \<noteq> [] \<longleftrightarrow>
      set (df_substr query rows) \<inter> set (df_fuzzy scorer query rows) \<noteq> {}"
    by (simp add: set_merge_inner [symmetric])
  with assms show ?thesis by (simp add: filter_by_style_def Let_def)
qed

text \<open>
  The query "ipa" on the styles "American IPA" and "India Pale Ale". The substring set is the
  first row. With a scorer that matches both styles the result is the intersection, the first
  row; with a scorer that matches only "India Pale Ale" the intersection is empty and the
  result is the union, both rows.
\<close>

lemma style_filter_ipa:
  "filter_by_style full_scorer ''ipa'' [american_ipa_row, india_pale_ale_row] = Inr [american_ipa_row]"
  "filter_by_style pale_ale_scorer ''ipa'' [american_ipa_row, india_pale_ale_row]
     = Inr [american_ipa_row, india_pale_ale_row]"
  by code_simp+

text \<open>
  C2: the combination of the two candidate sets is as claimed only when both are non-empty
  (\<open>style_filter_both_nonempty\<close>: their intersection if it has a row, else their union without
  duplicates). When one of them is empty, or both, line 194 does not return the other set or
  zero rows: it raises \<^verbatim>\<open>ValueError\<close>, for every query and every table in which every row has a
  style. The witness is the query "ipa" on a table with the one style "Stout" (both sets
  empty), and the query "stout" on it with a scorer that matches nothing (only the substring
  set non-empty).
\<close>

theorem style_filter_raises_unless_both_nonempty:
  assumes "\<not> list_ex (\<lambda>r. Style r = None) rows"
    and "df_substr query rows = [] \<or> df_fuzzy scorer query rows = []"
  shows "filter_by_style scorer query rows = Inl ValueError"
  using assms by (auto simp: filter_by_style_def Let_def)

lemma df_substr_ipa: "df_substr ''ipa'' [stout_row] = []"
  by code_simp

lemma df_substr_stout: "df_substr ''stout'' [stout_row] = [stout_row]"
  by code_simp

lemma df_fuzzy_zero: "df_fuzzy zero_scorer ''stout'' [stout_row] = []"
  by code_simp

theorem style_filter_raises_unless_both_nonempty_witness:
  "\<not> list_ex (\<lambda>r. Style r = None) [stout_row] \<and>
   df_substr ''ipa'' [stout_row] = [] \<and>
   filter_by_style zero_scorer ''ipa'' [stout_row] = Inl ValueError \<and>
   df_substr ''stout'' [stout_row] = [stout_row] \<and>
   df_fuzzy zero_scorer ''stout'' [stout_row] = [] \<and>
   filter_by_style zero_scorer ''stout'' [stout_row] = Inl ValueError"
proof -
  have styles: "\<not> list_ex (\<lambda>r. Style r = None) [stout_row]"
    by (simp add: stout_row_def beer_def)
  from style_filter_raises_unless_both_nonempty [OF styles, of "''ipa''" zero_scorer] df_substr_ipa
  have 1: "filter_by_style zero_scorer ''ipa'' [stout_row] = Inl ValueError" by simp
  from style_filter_raises_unless_both_nonempty [OF styles, of "''stout''" zero_scorer] df_fuzzy_zero
  have 2: "filter_by_style zero_scorer ''stout'' [stout_row] = Inl ValueError" by simp
  from styles df_substr_ipa df_substr_stout df_fuzzy_zero 1 2 show ?thesis by simp
qed


subsection \<open>Approximate matching and rating submission\<close>

















subsection \<open>The adaptive name and brewery filters\<close>



















end
